theory Spec2Isabelle
  imports Main "HOL-Library.Sublist" "HOL-Library.List_Lexorder" "HOL-Library.Char_ord"
begin

section \<open>Python exceptions\<close>

text \<open>
  The exceptions that \<^verbatim>\<open>cli.py\<close> can meet.  \<^verbatim>\<open>SystemExit\<close> is raised by
  \<^verbatim>\<open>sys.exit\<close>; it is not an \<^verbatim>\<open>Exception\<close>, so \<^verbatim>\<open>except Exception\<close> lets it pass.
  Every other exception carries its class and its message (\<^verbatim>\<open>str(e)\<close>).
\<close>

datatype exc_kind =
    FileExistsError | FileNotFoundError | IsADirectoryError | NotADirectoryError
  | OSError | OverflowError | KeyError | ValueError

datatype exc = SystemExit int | Error exc_kind string

text \<open>\<^verbatim>\<open>except OSError\<close> catches \<^verbatim>\<open>OSError\<close> and its subclasses only.\<close>

fun is_OSError :: "exc \<Rightarrow> bool" where
  "is_OSError (SystemExit n) = False"
| "is_OSError (Error k m) = (k \<noteq> OverflowError \<and> k \<noteq> KeyError \<and> k \<noteq> ValueError)"

section \<open>Paths\<close>

text \<open>
  An absolute path is the list of its components below the root; \<open>[]\<close> is the root.
  \<^verbatim>\<open>Path.name\<close>, \<^verbatim>\<open>Path.suffix\<close> and \<^verbatim>\<open>Path.stem\<close> follow \<^verbatim>\<open>pathlib\<close>: the suffix starts
  at the last dot of the name, unless that dot is the first or the last character.
\<close>

type_synonym path = "string list"

definition name :: "path \<Rightarrow> string" where
  "name p = (case rev p of [] \<Rightarrow> [] | c # _ \<Rightarrow> c)"

definition parent :: "path \<Rightarrow> path" where
  "parent p = butlast p"

text \<open>\<^verbatim>\<open>str.rfind('.')\<close>: the index of the last dot, \<open>None\<close> for Python's \<open>-1\<close>.\<close>

fun rfind_dot :: "string \<Rightarrow> nat option" where
  "rfind_dot [] = None"
| "rfind_dot (c # cs) =
     (case rfind_dot cs of
        Some i \<Rightarrow> Some (Suc i)
      | None \<Rightarrow> (if c = CHR ''.'' then Some 0 else None))"

definition suffix_of :: "string \<Rightarrow> string" where
  "suffix_of n =
     (case rfind_dot n of
        None \<Rightarrow> []
      | Some i \<Rightarrow> (if 0 < i \<and> i < length n - 1 then drop i n else []))"

definition stem_of :: "string \<Rightarrow> string" where
  "stem_of n =
     (case rfind_dot n of
        None \<Rightarrow> n
      | Some i \<Rightarrow> (if 0 < i \<and> i < length n - 1 then take i n else n))"

definition suffix_p :: "path \<Rightarrow> string" where
  "suffix_p p = suffix_of (name p)"

definition stem :: "path \<Rightarrow> string" where
  "stem p = stem_of (name p)"

definition show_path :: "path \<Rightarrow> string" where
  "show_path p = (if p = [] then ''/'' else concat (map (\<lambda>c. ''/'' @ c) p))"

text \<open>How an \<^verbatim>\<open>OSError\<close> names a path in its message: in single quotes.\<close>

definition quote :: string where
  "quote = [CHR 0x27]"

definition quoted :: "path \<Rightarrow> string" where
  "quoted p = quote @ show_path p @ quote"

section \<open>The filesystem\<close>

text \<open>
  The filesystem maps the real path of every object to what is stored there: a regular
  file with its text, a directory, or a symbolic link with its (absolute) target.

  Operations that follow links (\<^verbatim>\<open>Path.exists\<close>, \<^verbatim>\<open>open\<close>, the source of
  \<^verbatim>\<open>copytree\<close>) resolve their path with \<open>walk\<close>, component by component from the root,
  giving up after \<open>symloop_max\<close> links as the kernel does (ELOOP).  Operations that act on
  the directory entry itself (\<^verbatim>\<open>is_symlink\<close>, \<^verbatim>\<open>unlink\<close>, \<^verbatim>\<open>os.symlink\<close>, \<^verbatim>\<open>rmtree\<close>,
  \<^verbatim>\<open>makedirs\<close>) are given the real path of the entry: \<^verbatim>\<open>mkdtemp\<close> and \<^verbatim>\<open>Path.resolve\<close>
  return such paths, and the output location is taken resolved.
\<close>

datatype node = File string | Dir | Symlink path

type_synonym filesystem = "path \<Rightarrow> node option"

definition symloop_max :: nat where
  "symloop_max = 40"

fun walk :: "nat \<Rightarrow> filesystem \<Rightarrow> path \<Rightarrow> path \<Rightarrow> path option" where
  "walk k fs cur [] = Some cur"
| "walk k fs cur (c # rest) =
     (case fs (cur @ [c]) of
        Some (Symlink t) \<Rightarrow>
          (case k of 0 \<Rightarrow> None | Suc k' \<Rightarrow> walk k' fs [] (t @ rest))
      | _ \<Rightarrow> walk k fs (cur @ [c]) rest)"

definition realpath :: "filesystem \<Rightarrow> path \<Rightarrow> path option" where
  "realpath fs p = walk symloop_max fs [] p"

definition node_at :: "filesystem \<Rightarrow> path \<Rightarrow> node option" where
  "node_at fs p = (if p = [] then Some Dir else fs p)"

text \<open>
  A directory in the strict sense: the path and all its ancestors are directories, none
  of them a link.  \<^verbatim>\<open>mkdtemp\<close> returns such a path.
\<close>

definition real_dir :: "filesystem \<Rightarrow> path \<Rightarrow> bool" where
  "real_dir fs p = (\<forall>q. prefix q p \<and> q \<noteq> [] \<longrightarrow> fs q = Some Dir)"

text \<open>\<^verbatim>\<open>Path.exists()\<close>: follows links; a dangling link or a link loop does not exist.\<close>

definition exists_p :: "filesystem \<Rightarrow> path \<Rightarrow> bool" where
  "exists_p fs p =
     (case realpath fs p of None \<Rightarrow> False | Some q \<Rightarrow> node_at fs q \<noteq> None)"

text \<open>\<^verbatim>\<open>Path.is_symlink()\<close>: looks at the entry itself.\<close>

definition is_symlink :: "filesystem \<Rightarrow> path \<Rightarrow> bool" where
  "is_symlink fs p = (case fs p of Some (Symlink t) \<Rightarrow> True | _ \<Rightarrow> False)"

text \<open>\<^verbatim>\<open>Path.unlink()\<close>: removes a file or a link, never a directory.\<close>

definition unlink :: "filesystem \<Rightarrow> path \<Rightarrow> exc + filesystem" where
  "unlink fs p =
     (case node_at fs p of
        None \<Rightarrow> Inl (Error FileNotFoundError (''[Errno 2] No such file or directory: '' @ quoted p))
      | Some Dir \<Rightarrow> Inl (Error IsADirectoryError (''[Errno 21] Is a directory: '' @ quoted p))
      | Some _ \<Rightarrow> Inr (fs(p := None)))"

text \<open>\<^verbatim>\<open>os.symlink(src, dst)\<close>: creates the entry \<open>dst\<close>, a link to \<open>src\<close>; never replaces.\<close>

definition os_symlink :: "filesystem \<Rightarrow> path \<Rightarrow> path \<Rightarrow> exc + filesystem" where
  "os_symlink fs src dst =
     (if node_at fs dst \<noteq> None then
        Inl (Error FileExistsError (''[Errno 17] File exists: '' @ quoted src @ '' -> '' @ quoted dst))
      else if node_at fs (parent dst) \<noteq> Some Dir then
        Inl (Error FileNotFoundError (''[Errno 2] No such file or directory: '' @ quoted src @ '' -> '' @ quoted dst))
      else Inr (fs(dst \<mapsto> Symlink src)))"

text \<open>
  \<^verbatim>\<open>Path.write_text(data)\<close> opens the path for writing: links are followed, the file is
  created when it is missing (also behind a dangling link) and truncated otherwise.
\<close>

definition write_text :: "filesystem \<Rightarrow> path \<Rightarrow> string \<Rightarrow> exc + filesystem" where
  "write_text fs p data =
     (case realpath fs p of
        None \<Rightarrow> Inl (Error OSError (''[Errno 40] Too many levels of symbolic links: '' @ quoted p))
      | Some q \<Rightarrow>
          (if node_at fs q = Some Dir then
             Inl (Error IsADirectoryError (''[Errno 21] Is a directory: '' @ quoted p))
           else if node_at fs (parent q) \<noteq> Some Dir then
             Inl (Error FileNotFoundError (''[Errno 2] No such file or directory: '' @ quoted p))
           else Inr (fs(q \<mapsto> File data))))"

text \<open>
  \<^verbatim>\<open>shutil.rmtree(path)\<close>: refuses a link and anything that is not a directory; removes the
  directory with everything below it.  Links inside are removed, not followed.
\<close>

definition remove_tree :: "filesystem \<Rightarrow> path \<Rightarrow> filesystem" where
  "remove_tree fs p = (\<lambda>x. if prefix p x then None else fs x)"

definition rmtree :: "filesystem \<Rightarrow> path \<Rightarrow> exc + filesystem" where
  "rmtree fs p =
     (case node_at fs p of
        None \<Rightarrow> Inl (Error FileNotFoundError (''[Errno 2] No such file or directory: '' @ quoted p))
      | Some (Symlink t) \<Rightarrow> Inl (Error OSError ''Cannot call rmtree on a symbolic link'')
      | Some (File c) \<Rightarrow> Inl (Error NotADirectoryError (''[Errno 20] Not a directory: '' @ quoted p))
      | Some Dir \<Rightarrow> Inr (remove_tree fs p))"

text \<open>
  \<^verbatim>\<open>shutil.copytree(src, dst)\<close> with its defaults: \<open>src\<close> is listed first (it must be a
  directory, links followed), then \<open>dst\<close> is created with its missing parents (it must
  not exist), then everything below \<open>src\<close> is copied; with \<^verbatim>\<open>symlinks=False\<close> a link
  inside is copied as what it points to.  Failures of single entries (a dangling link
  inside the tree) are outside the model.
\<close>

definition copied :: "filesystem \<Rightarrow> path \<Rightarrow> path \<Rightarrow> node option" where
  "copied fs q rel =
     (case walk symloop_max fs q rel of
        None \<Rightarrow> None
      | Some r \<Rightarrow>
          (case node_at fs r of
             Some (File c) \<Rightarrow> Some (File c)
           | Some Dir \<Rightarrow> Some Dir
           | _ \<Rightarrow> None))"

definition copytree :: "filesystem \<Rightarrow> path \<Rightarrow> path \<Rightarrow> exc + filesystem" where
  "copytree fs src dst =
     (case realpath fs src of
        None \<Rightarrow> Inl (Error OSError (''[Errno 40] Too many levels of symbolic links: '' @ quoted src))
      | Some q \<Rightarrow>
          (case node_at fs q of
             None \<Rightarrow> Inl (Error FileNotFoundError (''[Errno 2] No such file or directory: '' @ quoted src))
           | Some (File c) \<Rightarrow> Inl (Error NotADirectoryError (''[Errno 20] Not a directory: '' @ quoted src))
           | Some (Symlink t) \<Rightarrow> Inl (Error FileNotFoundError (''[Errno 2] No such file or directory: '' @ quoted src))
           | Some Dir \<Rightarrow>
               (if node_at fs dst \<noteq> None then
                  Inl (Error FileExistsError (''[Errno 17] File exists: '' @ quoted dst))
                else
                  Inr (\<lambda>x. if prefix dst x then copied fs q (drop (length dst) x)
                           else if strict_prefix x dst \<and> fs x = None then Some Dir
                           else fs x))))"

section \<open>The project descriptor\<close>

definition nl :: string where
  "nl = [CHR 0x0A]"

definition MYST_YML_TEMPLATE :: string where
  "MYST_YML_TEMPLATE =
     ''version: 1'' @ nl @
     ''site:'' @ nl @
     ''  template: {theme}'' @ nl @
     ''project:'' @ nl @
     ''  toc:'' @ nl @
     ''    - file: {slug}'' @ nl"

text \<open>
  \<^verbatim>\<open>str.format(**kw)\<close> for templates whose replacement fields are plain names, as the
  template above: the text between \<open>{\<close> and \<open>}\<close> is looked up among the keyword
  arguments and its value is inserted as it is (it is not scanned again).  The second
  argument is the field being read, if any, in reverse.
\<close>

fun format_kw :: "(string \<times> string) list \<Rightarrow> string option \<Rightarrow> string \<Rightarrow> exc + string" where
  "format_kw kw None [] = Inr []"
| "format_kw kw (Some f) [] = Inl (Error ValueError ''expected '}' before end of string'')"
| "format_kw kw None (c # cs) =
     (if c = CHR ''{'' then format_kw kw (Some []) cs
      else if c = CHR ''}'' then Inl (Error ValueError ''Single '}' encountered in format string'')
      else (case format_kw kw None cs of Inl e \<Rightarrow> Inl e | Inr s \<Rightarrow> Inr (c # s)))"
| "format_kw kw (Some f) (c # cs) =
     (if c = CHR ''}'' then
        (case map_of kw (rev f) of
           None \<Rightarrow> Inl (Error KeyError (quote @ rev f @ quote))
         | Some v \<Rightarrow> (case format_kw kw None cs of Inl e \<Rightarrow> Inl e | Inr s \<Rightarrow> Inr (v @ s)))
      else format_kw kw (Some (c # f)) cs)"

definition format :: "string \<Rightarrow> (string \<times> string) list \<Rightarrow> exc + string" where
  "format template kw = format_kw kw None template"

section \<open>Staging the workspace\<close>

text \<open>\<^verbatim>\<open>item.name.startswith(".")\<close>\<close>

definition hidden :: "string \<Rightarrow> bool" where
  "hidden n = (case n of [] \<Rightarrow> False | c # _ \<Rightarrow> c = CHR ''.'')"

text \<open>
  The loop over \<^verbatim>\<open>source_dir.iterdir()\<close> (lines 157-162); the list holds the names in the
  order the directory yields them.  An exception leaves the loop with the filesystem
  as it is at that moment.
\<close>

fun stage_links :: "path \<Rightarrow> path \<Rightarrow> string list \<Rightarrow> filesystem \<Rightarrow> (exc + unit) \<times> filesystem" where
  "stage_links source_dir tmpdir [] fs = (Inr (), fs)"
| "stage_links source_dir tmpdir (n # ns) fs =
     (if hidden n then stage_links source_dir tmpdir ns fs
      else if exists_p fs (tmpdir @ [n]) then stage_links source_dir tmpdir ns fs
      else (case os_symlink fs (source_dir @ [n]) (tmpdir @ [n]) of
              Inl e \<Rightarrow> (Inl e, fs)
            | Inr fs' \<Rightarrow> stage_links source_dir tmpdir ns fs'))"

text \<open>Writing \<^verbatim>\<open>myst.yml\<close> (lines 165-170).\<close>

definition write_descriptor :: "path \<Rightarrow> string \<Rightarrow> string \<Rightarrow> filesystem \<Rightarrow> (exc + unit) \<times> filesystem" where
  "write_descriptor tmpdir theme slug fs =
     (let myst_yml = tmpdir @ [''myst.yml''] in
      case (if is_symlink fs myst_yml then unlink fs myst_yml else Inr fs) of
        Inl e \<Rightarrow> (Inl e, fs)
      | Inr fs1 \<Rightarrow>
          (case format MYST_YML_TEMPLATE [(''theme'', theme), (''slug'', slug)] of
             Inl e \<Rightarrow> (Inl e, fs1)
           | Inr text \<Rightarrow>
               (case write_text fs1 myst_yml text of
                  Inl e \<Rightarrow> (Inl e, fs1)
                | Inr fs2 \<Rightarrow> (Inr (), fs2))))"

section \<open>Arguments, environment and state\<close>

text \<open>
  The parsed command line (\<^verbatim>\<open>args\<close>, lines 73-117).  \<open>output\<close> is the location
  \<^verbatim>\<open>--output\<close> names, \<open>None\<close> when the option is absent or empty.
\<close>

record args =
  "file" :: string
  port :: int
  theme :: string
  execute :: bool
  build :: bool
  "output" :: "path option"
  no_open :: bool

text \<open>
  A signal is delivered at one of four moments after the handlers are installed
  (line 153): before the staging loop, after the descriptor is written, while
  \<^verbatim>\<open>subprocess.run\<close> waits for the build, or while the served child is being waited for.
\<close>

datatype sigpoint = SigStaging | SigStaged | SigBuild | SigServe

datatype pstatus = Running | Exited int

text \<open>
  What the world outside \<^verbatim>\<open>cli.py\<close> answers during one invocation: the operating
  system, the renderer and the user.
\<close>

record env =
  resolved :: path
  cwd :: path
  tmpdir :: path
  listing :: "string list"
  which :: "string \<Rightarrow> string option"
  port_in_use :: "int \<Rightarrow> bool"
  run_result :: "(exc_kind \<times> string) + int"
  run_effect :: "filesystem \<Rightarrow> filesystem"
  popen_result :: "(exc_kind \<times> string) option"
  port_ready :: bool
  child_exit :: int
  serve_effect :: "filesystem \<Rightarrow> filesystem"
  term_in_time :: bool
  rmtree_fails :: bool
  signal :: "sigpoint option"
  status_at_signal :: pstatus

text \<open>What the invocation does to a process, in the order it does it.\<close>

datatype event =
    Spawn "string list" path bool
  | Terminate
  | Wait nat
  | Kill
  | Rmtree path
  | OpenBrowser string

text \<open>
  The state: the filesystem, both output streams, the actions so far, the variable
  \<^verbatim>\<open>proc\<close> of \<^verbatim>\<open>main\<close> (the handle with the child's state as \<^verbatim>\<open>poll()\<close> reports it) and
  the sockets this process holds open, each with the port it is bound to.
\<close>

record world =
  fs :: filesystem
  stdout :: "string list"
  stderr :: "string list"
  trace :: "event list"
  proc :: "pstatus option"
  sockets :: "int option list"

type_synonym 'a action = "world \<Rightarrow> (exc + 'a) \<times> world"

definition then_do :: "'a action \<Rightarrow> ('a \<Rightarrow> 'b action) \<Rightarrow> 'b action" where
  "then_do m f w = (case m w of (Inl x, w') \<Rightarrow> (Inl x, w') | (Inr v, w') \<Rightarrow> f v w')"

definition on_fs :: "(filesystem \<Rightarrow> (exc + unit) \<times> filesystem) \<Rightarrow> unit action" where
  "on_fs f w = (case f (fs w) of (r, fs') \<Rightarrow> (r, w\<lparr>fs := fs'\<rparr>))"

definition try_fs :: "(filesystem \<Rightarrow> exc + filesystem) \<Rightarrow> unit action" where
  "try_fs f w = (case f (fs w) of Inl x \<Rightarrow> (Inl x, w) | Inr fs' \<Rightarrow> (Inr (), w\<lparr>fs := fs'\<rparr>))"

definition print :: "string \<Rightarrow> world \<Rightarrow> world" where
  "print s w = w\<lparr>stdout := stdout w @ [s]\<rparr>"

definition eprint :: "string \<Rightarrow> world \<Rightarrow> world" where
  "eprint s w = w\<lparr>stderr := stderr w @ [s]\<rparr>"

definition log :: "event list \<Rightarrow> world \<Rightarrow> world" where
  "log es w = w\<lparr>trace := trace w @ es\<rparr>"

definition sys_exit :: "int \<Rightarrow> 'a action" where
  "sys_exit n w = (Inl (SystemExit n), w)"

section \<open>Decimal numbers\<close>

definition digit :: "nat \<Rightarrow> char" where
  "digit d = ''0123456789'' ! d"

fun str_nat :: "nat \<Rightarrow> string" where
  "str_nat n =
     (if n < 10 then [digit n]
      else str_nat (n div 10) @ [digit (n mod 10)])"

declare str_nat.simps [simp del]

definition str_int :: "int \<Rightarrow> string" where
  "str_int i = (if i < 0 then ''-'' @ str_nat (nat (- i)) else str_nat (nat i))"

definition join :: "string \<Rightarrow> string list \<Rightarrow> string" where
  "join sep xs = (case xs of [] \<Rightarrow> [] | x # ys \<Rightarrow> x @ concat (map (\<lambda>y. sep @ y) ys))"

section \<open>The port allocator\<close>

text \<open>
  \<^verbatim>\<open>s.bind(("", port))\<close>: a port outside 0..65535 is refused by the socket module with
  \<^verbatim>\<open>OverflowError\<close> before the operating system is asked; a port in use gives
  \<^verbatim>\<open>OSError\<close>.
\<close>

definition bind :: "env \<Rightarrow> int \<Rightarrow> exc + unit" where
  "bind e p =
     (if p < 0 \<or> 65535 < p then Inl (Error OverflowError ''bind(): port must be 0-65535.'')
      else if port_in_use e p then Inl (Error OSError ''[Errno 98] Address already in use'')
      else Inr ())"

definition socket_open :: "world \<Rightarrow> world" where
  "socket_open w = w\<lparr>sockets := None # sockets w\<rparr>"

definition socket_bound :: "int \<Rightarrow> world \<Rightarrow> world" where
  "socket_bound p w = w\<lparr>sockets := Some p # tl (sockets w)\<rparr>"

definition socket_close :: "world \<Rightarrow> world" where
  "socket_close w = w\<lparr>sockets := tl (sockets w)\<rparr>"

text \<open>
  The loop of \<^verbatim>\<open>find_free_port\<close> (lines 32-38).  Each round opens a socket; leaving the
  \<^verbatim>\<open>with\<close> block closes it, whether by \<^verbatim>\<open>return\<close>, by \<^verbatim>\<open>continue\<close> or by an exception
  that is not an \<^verbatim>\<open>OSError\<close>.  \<open>Inr None\<close>: the range is used up.
\<close>

fun try_ports :: "env \<Rightarrow> int list \<Rightarrow> (int option) action" where
  "try_ports e [] w = (Inr None, w)"
| "try_ports e (p # ps) w =
     (let w1 = socket_open w in
      case bind e p of
        Inr u \<Rightarrow> (Inr (Some p), socket_close (socket_bound p w1))
      | Inl x \<Rightarrow>
          (if is_OSError x then try_ports e ps (socket_close w1)
           else (Inl x, socket_close w1)))"

definition find_free_port :: "env \<Rightarrow> int \<Rightarrow> int \<Rightarrow> int action" where
  "find_free_port e start end0 w =
     (let end1 = (if end0 = 0 then start + 50 else end0) in
      case try_ports e [start..end1] w of
        (Inl x, w') \<Rightarrow> (Inl x, w')
      | (Inr (Some p), w') \<Rightarrow> (Inr p, w')
      | (Inr None, w') \<Rightarrow>
          sys_exit 1
            (eprint (''Error: no free port found in range '' @ str_int start @ ''-'' @ str_int end1) w'))"

section \<open>Finding the renderer\<close>

definition found :: "string option \<Rightarrow> bool" where
  "found r = (case r of None \<Rightarrow> False | Some s \<Rightarrow> s \<noteq> [])"

definition find_myst :: "env \<Rightarrow> (string list) action" where
  "find_myst e w =
     (let myst = which e ''myst'' in
      if found myst then (Inr [the myst], w)
      else
        let npx = which e ''npx'' in
        if found npx then (Inr [the npx, ''-y'', ''mystmd''], w)
        else sys_exit 1 (eprint ''Error: 'myst' not found. Install with: npm install -g mystmd'' w))"

section \<open>Teardown\<close>

text \<open>
  \<^verbatim>\<open>shutil.rmtree(tmpdir, ignore_errors=True)\<close>: the removal is tried; when it fails,
  for a reason the filesystem above shows or for one it does not (\<open>rmtree_fails\<close>),
  nothing is raised and the tree stays.
\<close>

definition rmtree_ignore_errors :: "env \<Rightarrow> path \<Rightarrow> world \<Rightarrow> world" where
  "rmtree_ignore_errors e p w =
     (let w1 = log [Rmtree p] w in
      if rmtree_fails e then w1
      else (case rmtree (fs w1) p of Inl x \<Rightarrow> w1 | Inr fs' \<Rightarrow> w1\<lparr>fs := fs'\<rparr>))"

text \<open>\<^verbatim>\<open>cleanup\<close> (lines 137-146) and \<^verbatim>\<open>cleanup_and_exit\<close> (lines 148-150).\<close>

definition cleanup :: "env \<Rightarrow> world \<Rightarrow> world" where
  "cleanup e w =
     (let w1 =
        (case proc w of
           Some Running \<Rightarrow>
             (let w2 = log [Terminate, Wait 5] w;
                  w3 = (if term_in_time e then w2 else log [Kill] w2)
              in w3\<lparr>proc := None\<rparr>)
         | _ \<Rightarrow> w)
      in rmtree_ignore_errors e (tmpdir e) w1)"

definition cleanup_and_exit :: "env \<Rightarrow> 'a action" where
  "cleanup_and_exit e w = sys_exit 0 (cleanup e w)"

text \<open>A pending signal runs its handler where the main flow stands.\<close>

definition deliver :: "sigpoint \<Rightarrow> env \<Rightarrow> unit action" where
  "deliver sp e w = (if signal e = Some sp then cleanup_and_exit e w else (Inr (), w))"

section \<open>The supervisor\<close>

definition SUPPORTED_EXTENSIONS :: "string list" where
  "SUPPORTED_EXTENSIONS = [''.md'', ''.ipynb'', ''.rst'', ''.tex'']"

text \<open>
  \<^verbatim>\<open>subprocess.run(cmd, cwd=tmpdir)\<close>: the renderer runs to its end and leaves its files
  behind (\<open>run_effect\<close>), or the launch raises.  A signal during the wait runs the handler
  in the waiting thread; \<^verbatim>\<open>run\<close> then kills the child and lets the \<^verbatim>\<open>SystemExit\<close> pass.
\<close>

definition subprocess_run :: "env \<Rightarrow> string list \<Rightarrow> int action" where
  "subprocess_run e cmd w =
     (case run_result e of
        Inl (k, m) \<Rightarrow> (Inl (Error k m), w)
      | Inr returncode \<Rightarrow>
          (let w1 = (log [Spawn cmd (tmpdir e) False] w)\<lparr>fs := run_effect e (fs w)\<rparr> in
           if signal e = Some SigBuild then
             (case cleanup_and_exit e w1 of (r, w2) \<Rightarrow> (r, log [Kill] w2))
           else (Inr returncode, w1)))"

text \<open>The build branch (lines 175-189).\<close>

definition build_mode :: "args \<Rightarrow> env \<Rightarrow> string list \<Rightarrow> unit action" where
  "build_mode a e myst_cmd w =
     (let cmd = myst_cmd @ [''build'', ''--html''] @ (if execute a then [''--execute''] else []);
          w1 = print (''Building '' @ name (resolved e) @ '' to static HTML...'') w
      in then_do (subprocess_run e cmd) (\<lambda>returncode.
           if returncode = 0 then
             (let build_dir = tmpdir e @ [''_build'', ''html''];
                  output_dir = (case output a of Some p \<Rightarrow> p | None \<Rightarrow> cwd e @ [''_build'', ''html''])
              in then_do (\<lambda>w. if exists_p (fs w) output_dir
                               then try_fs (\<lambda>f. rmtree f output_dir) w else (Inr (), w)) (\<lambda>u.
                 then_do (try_fs (\<lambda>f. copytree f build_dir output_dir)) (\<lambda>u.
                 (\<lambda>w. sys_exit returncode (print (''Output written to '' @ show_path output_dir) w)))))
           else sys_exit returncode) w1)"

text \<open>
  \<^verbatim>\<open>subprocess.Popen(cmd, cwd=tmpdir, env=env)\<close> with \<^verbatim>\<open>HOST=0.0.0.0\<close>, and the assignment
  to \<^verbatim>\<open>proc\<close>.
\<close>

definition popen :: "env \<Rightarrow> string list \<Rightarrow> unit action" where
  "popen e cmd w =
     (case popen_result e of
        Some (k, m) \<Rightarrow> (Inl (Error k m), w)
      | None \<Rightarrow> (Inr (), (log [Spawn cmd (tmpdir e) True] w)\<lparr>proc := Some Running\<rparr>))"

text \<open>
  \<^verbatim>\<open>wait_for_port(port)\<close> polls against a deadline; its answer comes from outside
  (\<open>port_ready\<close>).  Lines 207-211.
\<close>

definition open_browser :: "args \<Rightarrow> env \<Rightarrow> int \<Rightarrow> unit action" where
  "open_browser a e p w =
     (if \<not> no_open a then
        (if port_ready e then (Inr (), log [OpenBrowser (''http://localhost:'' @ str_int p)] w)
         else (Inr (), w))
      else (Inr (), w))"

text \<open>
  \<^verbatim>\<open>proc.wait()\<close>: returns when the child has ended by itself, unless a signal comes
  first; the handler then finds the child in the state \<open>status_at_signal\<close>.
\<close>

definition proc_wait :: "env \<Rightarrow> unit action" where
  "proc_wait e w =
     (if signal e = Some SigServe then
        cleanup_and_exit e (w\<lparr>proc := Some (status_at_signal e)\<rparr>)
      else (Inr (), w\<lparr>proc := Some (Exited (child_exit e)), fs := serve_effect e (fs w)\<rparr>))"

text \<open>The serve branch (lines 191-213).\<close>

definition serve_mode :: "args \<Rightarrow> env \<Rightarrow> string list \<Rightarrow> unit action" where
  "serve_mode a e myst_cmd =
     then_do (find_free_port e (port a) 0) (\<lambda>p w.
       (let w1 = (if p \<noteq> port a
                  then print (''Port '' @ str_int (port a) @ '' is in use, using '' @ str_int p @ '' instead.'') w
                  else w);
            cmd = myst_cmd @ [''start'', ''--port'', str_int p, ''--keep-host'']
                    @ (if execute a then [''--execute''] else []);
            w2 = print (''Starting MyST preview of '' @ name (resolved e)) w1;
            w3 = print (''Press Ctrl+C to stop.'' @ nl) w2
        in then_do (popen e cmd) (\<lambda>u.
           then_do (open_browser a e p) (\<lambda>u. proc_wait e)) w3))"

text \<open>The body of the \<^verbatim>\<open>try\<close> statement (lines 156-213).\<close>

definition try_body :: "args \<Rightarrow> env \<Rightarrow> unit action" where
  "try_body a e =
     (let source = resolved e; source_dir = parent source; slug = stem source in
      then_do (deliver SigStaging e) (\<lambda>u.
      then_do (on_fs (stage_links source_dir (tmpdir e) (listing e))) (\<lambda>u.
      then_do (on_fs (write_descriptor (tmpdir e) (theme a) slug)) (\<lambda>u.
      then_do (deliver SigStaged e) (\<lambda>u.
      then_do (find_myst e) (\<lambda>myst_cmd.
        if build a then build_mode a e myst_cmd else serve_mode a e myst_cmd))))))"

text \<open>\<^verbatim>\<open>except Exception as e: print(f"Error: {e}", file=sys.stderr)\<close>\<close>

definition handle_exception :: "(exc + unit) \<times> world \<Rightarrow> (exc + unit) \<times> world" where
  "handle_exception rw =
     (case rw of
        (Inl (Error k m), w) \<Rightarrow> (Inr (), eprint (''Error: '' @ m) w)
      | (r, w) \<Rightarrow> (r, w))"

text \<open>\<^verbatim>\<open>tempfile.mkdtemp\<close> creates the directory \<open>tmpdir e\<close>; \<^verbatim>\<open>proc = None\<close>.\<close>

definition mkdtemp :: "env \<Rightarrow> world \<Rightarrow> world" where
  "mkdtemp e w = w\<lparr>fs := (fs w)(tmpdir e \<mapsto> Dir), proc := None\<rparr>"

text \<open>
  The exit code of the invocation: the argument of \<^verbatim>\<open>sys.exit\<close>, or 0 when \<^verbatim>\<open>main\<close>
  returns.
\<close>

definition exit_code :: "exc + unit \<Rightarrow> int" where
  "exit_code r = (case r of Inl (SystemExit n) \<Rightarrow> n | _ \<Rightarrow> 0)"

text \<open>
  Validation (lines 119-129).  \<open>resolved e\<close> is \<^verbatim>\<open>Path(args.file).resolve()\<close>.
\<close>

definition validate :: "args \<Rightarrow> env \<Rightarrow> unit action" where
  "validate a e w =
     (let source = resolved e in
      if \<not> exists_p (fs w) source then
        sys_exit 1 (eprint (''Error: '' @ file a @ '' does not exist'') w)
      else if suffix_p source \<notin> set SUPPORTED_EXTENSIONS then
        sys_exit 1
          (eprint (''Error: unsupported file type '' @ quote @ suffix_p source @ quote
                     @ ''. Supported: '' @ join '', '' (sort SUPPORTED_EXTENSIONS)) w)
      else (Inr (), w))"

text \<open>
  \<^verbatim>\<open>main\<close> from line 119 on: validation, then the workspace and
  \<^verbatim>\<open>try\<close> / \<^verbatim>\<open>except\<close> / \<^verbatim>\<open>finally\<close>.  The result is the exit code with the state left
  behind.
\<close>

definition main :: "args \<Rightarrow> env \<Rightarrow> world \<Rightarrow> int \<times> world" where
  "main a e w =
     (case validate a e w of
        (Inl x, w') \<Rightarrow> (exit_code (Inl x), w')
      | (Inr u, w') \<Rightarrow>
          (case handle_exception (try_body a e (mkdtemp e w')) of
             (r, w'') \<Rightarrow> (exit_code r, cleanup e w'')))"

section \<open>A sample invocation\<close>

text \<open>
  The scenario of the specification: \<^verbatim>\<open>notes.md\<close> in a directory with \<^verbatim>\<open>img\<close>, \<^verbatim>\<open>.git\<close>
  and a descriptor of the user's own; port 3000 is taken.
\<close>

definition demo_fs :: filesystem where
  "demo_fs = map_of
     [([''home''], Dir), ([''home'', ''u''], Dir), ([''home'', ''u'', ''doc''], Dir),
      ([''home'', ''u'', ''doc'', ''notes.md''], File ''# Notes''),
      ([''home'', ''u'', ''doc'', ''img''], Dir),
      ([''home'', ''u'', ''doc'', ''myst.yml''], File ''custom''),
      ([''home'', ''u'', ''doc'', ''.git''], Dir),
      ([''tmp''], Dir)]"

definition demo_world :: world where
  "demo_world = \<lparr>fs = demo_fs, stdout = [], stderr = [], trace = [], proc = None, sockets = []\<rparr>"

definition demo_env :: env where
  "demo_env =
     \<lparr>resolved = [''home'', ''u'', ''doc'', ''notes.md''], cwd = [''home'', ''u'', ''doc''],
      tmpdir = [''tmp'', ''myst-preview-0''],
      listing = [''notes.md'', ''img'', ''.git'', ''myst.yml''],
      which = (\<lambda>x. if x = ''myst'' then Some ''/usr/bin/myst'' else None),
      port_in_use = (\<lambda>p. p = 3000),
      run_result = Inr 0, run_effect = (\<lambda>f. f), popen_result = None, port_ready = True,
      child_exit = 3, serve_effect = (\<lambda>f. f), term_in_time = False, rmtree_fails = False,
      signal = None, status_at_signal = Running\<rparr>"

definition demo_args :: args where
  "demo_args =
     \<lparr>file = ''notes.md'', port = 3000, theme = ''book-theme'', execute = False, build = False,
      output = None, no_open = False\<rparr>"

text \<open>The same invocation when every port is taken.\<close>

definition busy_env :: env where
  "busy_env = demo_env\<lparr>port_in_use := (\<lambda>p. True)\<rparr>"

text \<open>The staging loop of the sample invocation, run in the workspace just created.\<close>

definition demo_staging :: "(exc + unit) \<times> filesystem" where
  "demo_staging =
     stage_links (parent (resolved demo_env)) (tmpdir demo_env) (listing demo_env)
       (fs (mkdtemp demo_env demo_world))"

text \<open>
  A second build in the same directory: \<^verbatim>\<open>tool --build notes.md\<close>, run where the
  first run has left its output \<^verbatim>\<open>_build/html\<close>.  The renderer succeeds and writes its
  page to \<^verbatim>\<open>_build/html/index.html\<close> below its working directory, the workspace.
\<close>

definition rerun_fs :: filesystem where
  "rerun_fs = map_of
     [([''home''], Dir), ([''home'', ''u''], Dir), ([''home'', ''u'', ''doc''], Dir),
      ([''home'', ''u'', ''doc'', ''notes.md''], File ''# Notes''),
      ([''home'', ''u'', ''doc'', ''_build''], Dir),
      ([''home'', ''u'', ''doc'', ''_build'', ''html''], Dir),
      ([''home'', ''u'', ''doc'', ''_build'', ''html'', ''index.html''], File ''first build''),
      ([''tmp''], Dir)]"

definition rerun_world :: world where
  "rerun_world = demo_world\<lparr>fs := rerun_fs\<rparr>"

definition rerun_env :: env where
  "rerun_env = demo_env
     \<lparr>listing := [''notes.md'', ''_build''],
      run_result := Inr 0,
      run_effect := (\<lambda>f.
        case write_text f [''tmp'', ''myst-preview-0'', ''_build'', ''html'', ''index.html'']
               ''second build'' of
          Inl x \<Rightarrow> f
        | Inr f' \<Rightarrow> f')\<rparr>"

definition rerun_args :: args where
  "rerun_args = demo_args\<lparr>build := True, output := None\<rparr>"

section \<open>The port allocator: what a returned port is\<close>

lemma socket_roundtrip: "socket_close (socket_bound p (socket_open w)) = w" "socket_close (socket_open w) = w"
  by (simp_all add: socket_close_def socket_bound_def socket_open_def)

lemma try_ports_found:
  "try_ports e ps w = (Inr (Some p), w') \<Longrightarrow>
     w' = w \<and> bind e p = Inr () \<and>
     (\<exists>xs ys. ps = xs @ p # ys \<and> (\<forall>q\<in>set xs. \<exists>x. bind e q = Inl x \<and> is_OSError x))"
proof (induction ps arbitrary: w)
  case Nil
  then show ?case by simp
next
  case (Cons a ps)
  show ?case
  proof (cases "bind e a")
    case (Inr u)
    with Cons.prems have "p = a" "w' = w" by (simp_all add: socket_roundtrip Let_def)
    with Inr show ?thesis by (auto intro: exI[of _ "[]"])
  next
    case (Inl x)
    with Cons.prems have os: "is_OSError x" and rec: "try_ports e ps w = (Inr (Some p), w')"
      by (simp_all add: socket_roundtrip Let_def split: if_splits)
    from Cons.IH[OF rec] obtain xs ys where
      ih: "w' = w" "bind e p = Inr ()" "ps = xs @ p # ys"
        "\<forall>q\<in>set xs. \<exists>x. bind e q = Inl x \<and> is_OSError x"
      by blast
    have "a # ps = (a # xs) @ p # ys" using ih(3) by simp
    moreover have "\<forall>q\<in>set (a # xs). \<exists>x. bind e q = Inl x \<and> is_OSError x"
      using ih(4) Inl os by simp
    ultimately show ?thesis using ih(1,2) by blast
  qed
qed

lemma upto_before:
  assumes "[i..j] = xs @ p # ys" and "i \<le> q" and "q < p"
  shows "q \<in> set xs"
proof -
  have p_in: "p \<in> set [i..j]" using assms(1) by simp
  then have "q \<in> set [i..j]" using assms(2,3) by simp
  then have "q \<in> set (xs @ p # ys)" by (simp only: assms(1))
  then have "q \<in> set xs \<or> q = p \<or> q \<in> set ys" by auto
  moreover have "sorted (xs @ p # ys)" using assms(1) sorted_upto[of i j] by simp
  then have "\<forall>y\<in>set ys. p \<le> y" by (simp add: sorted_append)
  ultimately show ?thesis using assms(3) by auto
qed

text \<open>
  Claim C4.  When \<^verbatim>\<open>find_free_port(start, end)\<close> returns a port \<open>p\<close>, then \<open>p\<close> lies
  between \<open>start\<close> and the end of the range (\<open>start + 50\<close> when no end is given), the
  bind to \<open>p\<close> succeeded, the bind to every earlier candidate failed with an
  \<^verbatim>\<open>OSError\<close>, and the socket that was bound is closed again: the process holds the
  same sockets as before the call.
\<close>

theorem find_free_port_result:
  "find_free_port e start end0 w = (Inr p, w') \<Longrightarrow>
     start \<le> p \<and> p \<le> (if end0 = 0 then start + 50 else end0) \<and>
     bind e p = Inr () \<and>
     (\<forall>q. start \<le> q \<and> q < p \<longrightarrow> (\<exists>x. bind e q = Inl x \<and> is_OSError x)) \<and>
     sockets w' = sockets w \<and> w' = w"
proof -
  assume a: "find_free_port e start end0 w = (Inr p, w')"
  define end1 where "end1 = (if end0 = 0 then start + 50 else end0)"
  from a have tp: "try_ports e [start..end1] w = (Inr (Some p), w')"
    by (auto simp: find_free_port_def end1_def Let_def sys_exit_def split: prod.splits sum.splits option.splits)
  from try_ports_found[OF tp] obtain xs ys where
    w: "w' = w" and b: "bind e p = Inr ()" and sp: "[start..end1] = xs @ p # ys"
    and f: "\<forall>q\<in>set xs. \<exists>x. bind e q = Inl x \<and> is_OSError x" by blast
  from sp have "p \<in> set [start..end1]" by simp
  then have r: "start \<le> p" "p \<le> end1" by simp_all
  have "\<forall>q. start \<le> q \<and> q < p \<longrightarrow> (\<exists>x. bind e q = Inl x \<and> is_OSError x)"
    using upto_before[OF sp] f by blast
  with r w b show ?thesis by (simp add: end1_def)
qed

theorem find_free_port_result_witness:
  "find_free_port demo_env 3000 0 demo_world = (Inr 3001, demo_world) \<and>
   bind demo_env 3001 = Inr () \<and> (\<exists>x. bind demo_env 3000 = Inl x \<and> is_OSError x)"
proof -
  have r: "find_free_port demo_env 3000 0 demo_world = (Inr 3001, demo_world)"
    by (simp add: find_free_port_def upto_rec1 bind_def demo_env_def socket_roundtrip Let_def)
  from find_free_port_result[OF r] show ?thesis using r by simp
qed

section \<open>Evaluating concrete invocations\<close>

lemmas ops = exists_p_def realpath_def node_at_def os_symlink_def parent_def hidden_def
  is_symlink_def unlink_def write_text_def symloop_max_def show_path_def quoted_def quote_def rmtree_def copytree_def
  remove_tree_def copied_def

lemmas acts = main_def validate_def try_body_def then_do_def on_fs_def try_fs_def deliver_def
  find_myst_def found_def serve_mode_def build_mode_def find_free_port_def bind_def popen_def
  open_browser_def proc_wait_def handle_exception_def exit_code_def mkdtemp_def sys_exit_def
  print_def eprint_def log_def cleanup_def rmtree_ignore_errors_def cleanup_and_exit_def
  subprocess_run_def write_descriptor_def format_def MYST_YML_TEMPLATE_def nl_def
  name_def suffix_p_def stem_def suffix_of_def stem_of_def SUPPORTED_EXTENSIONS_def
  socket_open_def socket_close_def socket_bound_def Let_def

lemmas demo = demo_args_def demo_env_def demo_world_def demo_fs_def

section \<open>The port allocator: a range past the last port\<close>

text \<open>
  Inside the valid ports the function does what its message says: when every candidate
  is taken it prints the range and exits with code 1.
\<close>

lemma try_ports_all_fail:
  "\<forall>q\<in>set ps. \<exists>x. bind e q = Inl x \<and> is_OSError x \<Longrightarrow> try_ports e ps w = (Inr None, w)"
  by (induction ps arbitrary: w) (auto simp: Let_def socket_roundtrip)

lemma find_free_port_used_up:
  assumes "0 \<le> start" and "(if end0 = 0 then start + 50 else end0) \<le> 65535"
    and "\<forall>q. port_in_use e q"
  shows "find_free_port e start end0 w =
     (Inl (SystemExit 1),
      eprint (''Error: no free port found in range '' @ str_int start @ ''-'' @
              str_int (if end0 = 0 then start + 50 else end0)) w)"
proof -
  have "\<forall>q\<in>set [start..(if end0 = 0 then start + 50 else end0)]. \<exists>x. bind e q = Inl x \<and> is_OSError x"
    using assms by (auto simp: bind_def)
  from try_ports_all_fail[OF this] show ?thesis
    by (simp add: find_free_port_def Let_def sys_exit_def)
qed

text \<open>
  Claim C8 says that \<^verbatim>\<open>find_free_port\<close> ends the process with a nonzero exit code and
  a message naming the range whenever no candidate can be bound.  With the range
  65530..65580 and every port taken, the candidates up to 65535 fail with \<^verbatim>\<open>OSError\<close>,
  and the bind to 65536 raises \<^verbatim>\<open>OverflowError\<close>, which the loop does not catch: the
  function raises instead of exiting, prints nothing, and \<^verbatim>\<open>main\<close> reports the
  exception and ends with exit code 0.
\<close>

theorem port_range_past_65535:
  "fst (find_free_port busy_env 65530 0 demo_world) =
     Inl (Error OverflowError ''bind(): port must be 0-65535.'') \<and>
   stderr (snd (find_free_port busy_env 65530 0 demo_world)) = [] \<and>
   fst (main (demo_args\<lparr>port := 65530\<rparr>) busy_env demo_world) = 0 \<and>
   stderr (snd (main (demo_args\<lparr>port := 65530\<rparr>) busy_env demo_world)) =
     [''Error: bind(): port must be 0-65535.'']"
  by (simp add: busy_env_def demo acts ops upto_rec1)

section \<open>Teardown: what the routine does\<close>

lemma trace_rmtree_ignore_errors:
  "trace (rmtree_ignore_errors e p w) = trace w @ [Rmtree p]"
  by (simp add: rmtree_ignore_errors_def log_def Let_def split: sum.splits)


lemma fs_rmtree_ignore_errors:
  "fs (rmtree_ignore_errors e p w) =
     (if rmtree_fails e then fs w else case rmtree (fs w) p of Inl x \<Rightarrow> fs w | Inr f \<Rightarrow> f)"
  by (simp add: rmtree_ignore_errors_def log_def Let_def split: sum.splits)


lemma trace_cleanup:
  "trace (cleanup e w) =
     trace w @ (if proc w = Some Running
                then [Terminate, Wait 5] @ (if term_in_time e then [] else [Kill]) else [])
       @ [Rmtree (tmpdir e)]"
  by (simp add: cleanup_def trace_rmtree_ignore_errors log_def Let_def split: option.splits pstatus.splits)


lemma fs_cleanup:
  "fs (cleanup e w) =
     (if rmtree_fails e then fs w else case rmtree (fs w) (tmpdir e) of Inl x \<Rightarrow> fs w | Inr f \<Rightarrow> f)"
proof (cases "proc w = Some Running")
  case True
  then show ?thesis
    unfolding cleanup_def Let_def by (simp add: fs_rmtree_ignore_errors log_def split: sum.splits)
next
  case False
  then show ?thesis
    unfolding cleanup_def Let_def
    by (simp add: fs_rmtree_ignore_errors split: option.splits pstatus.splits sum.splits)
qed


lemma rmtree_result:
  "rmtree f p = Inr f' \<Longrightarrow> f' = remove_tree f p \<and> node_at f p = Some Dir"
  by (auto simp: rmtree_def split: option.splits node.splits)

lemma rmtree_no_dir:
  "p \<noteq> [] \<Longrightarrow> (case rmtree f p of Inl x \<Rightarrow> f | Inr f' \<Rightarrow> f') p \<noteq> Some Dir"
  by (auto simp: rmtree_def remove_tree_def node_at_def split: option.splits node.splits)




section \<open>Validation\<close>

text \<open>
  Claim C7.  When the resolved path does not exist, and when its extension is not one
  of \<^verbatim>\<open>.md\<close>, \<^verbatim>\<open>.ipynb\<close>, \<^verbatim>\<open>.rst\<close>, \<^verbatim>\<open>.tex\<close>, the invocation ends with exit code 1
  and differs from the state it started in by one message on standard error only.
  When the path exists and the extension is in the list, validation raises nothing,
  changes nothing, and \<^verbatim>\<open>main\<close> goes on to create the workspace.
\<close>

theorem validation:
  "(\<not> exists_p (fs w) (resolved e) \<longrightarrow>
      main a e w = (1, w\<lparr>stderr := stderr w @ [''Error: '' @ file a @ '' does not exist'']\<rparr>)) \<and>
   (exists_p (fs w) (resolved e) \<and>
    suffix_p (resolved e) \<notin> {''.md'', ''.ipynb'', ''.rst'', ''.tex''} \<longrightarrow>
      main a e w =
        (1, w\<lparr>stderr := stderr w @
              [''Error: unsupported file type '' @ quote @ suffix_p (resolved e) @ quote
                 @ ''. Supported: .ipynb, .md, .rst, .tex'']\<rparr>)) \<and>
   (exists_p (fs w) (resolved e) \<and>
    suffix_p (resolved e) \<in> {''.md'', ''.ipynb'', ''.rst'', ''.tex''} \<longrightarrow>
      validate a e w = (Inr (), w) \<and>
      main a e w =
        (case handle_exception (try_body a e (mkdtemp e w)) of
           (r, w') \<Rightarrow> (exit_code r, cleanup e w')))"
proof -
  have s: "join '', '' (sort SUPPORTED_EXTENSIONS) = ''.ipynb, .md, .rst, .tex''"
    by (simp add: SUPPORTED_EXTENSIONS_def join_def)
  show ?thesis
    by (simp add: main_def validate_def sys_exit_def eprint_def exit_code_def Let_def
        SUPPORTED_EXTENSIONS_def join_def)
qed

theorem validation_witness:
  "fst (main (demo_args\<lparr>file := ''nothing.md''\<rparr>)
          (demo_env\<lparr>resolved := [''home'', ''u'', ''doc'', ''nothing.md'']\<rparr>) demo_world) = 1 \<and>
   fst (main (demo_args\<lparr>file := ''img''\<rparr>)
          (demo_env\<lparr>resolved := [''home'', ''u'', ''doc'', ''img'']\<rparr>) demo_world) = 1 \<and>
   validate demo_args demo_env demo_world = (Inr (), demo_world)"
  using validation [of demo_world "demo_env\<lparr>resolved := [''home'', ''u'', ''doc'', ''nothing.md'']\<rparr>"
        "demo_args\<lparr>file := ''nothing.md''\<rparr>"]
    validation [of demo_world "demo_env\<lparr>resolved := [''home'', ''u'', ''doc'', ''img'']\<rparr>"
        "demo_args\<lparr>file := ''img''\<rparr>"]
    validation [of demo_world demo_env demo_args]
  by (simp add: demo ops name_def suffix_p_def suffix_of_def)


section \<open>The workspace at the end of the invocation\<close>

text \<open>
  Claim C1, amended.  For every invocation that gets past validation, whatever the
  \<^verbatim>\<open>try\<close> block did (returned, raised, exited, or was interrupted by a signal): the
  last action is an attempt to remove the workspace, the exit code is that of the
  \<^verbatim>\<open>try\<close> block alone (a failed removal raises nothing), and when the removal does not
  fail no directory is left at the workspace path; if the workspace was still there
  when the final teardown began, nothing is left at or below its path.
\<close>

theorem workspace_removal:
  "validate a e w = (Inr (), w1) \<Longrightarrow>
     (\<exists>es. trace (snd (main a e w)) = es @ [Rmtree (tmpdir e)]) \<and>
     fst (main a e w) = exit_code (fst (handle_exception (try_body a e (mkdtemp e w1)))) \<and>
     (\<not> rmtree_fails e \<and> tmpdir e \<noteq> [] \<longrightarrow> fs (snd (main a e w)) (tmpdir e) \<noteq> Some Dir) \<and>
     (\<not> rmtree_fails e \<and>
      fs (snd (handle_exception (try_body a e (mkdtemp e w1)))) (tmpdir e) = Some Dir \<longrightarrow>
        (\<forall>p. prefix (tmpdir e) p \<longrightarrow> fs (snd (main a e w)) p = None))"
proof -
  assume v: "validate a e w = (Inr (), w1)"
  obtain r w2 where h: "handle_exception (try_body a e (mkdtemp e w1)) = (r, w2)"
    by (cases "handle_exception (try_body a e (mkdtemp e w1))")
  have m: "main a e w = (exit_code r, cleanup e w2)"
    by (simp add: main_def v h)
  have 1: "\<exists>es. trace (snd (main a e w)) = es @ [Rmtree (tmpdir e)]"
    unfolding m by (simp add: trace_cleanup)
  have 3: "tmpdir e \<noteq> [] \<Longrightarrow> \<not> rmtree_fails e \<Longrightarrow> fs (snd (main a e w)) (tmpdir e) \<noteq> Some Dir"
    unfolding m using rmtree_no_dir [of "tmpdir e" "fs w2"] by (simp add: fs_cleanup)
  have 4: "\<not> rmtree_fails e \<Longrightarrow> fs w2 (tmpdir e) = Some Dir \<Longrightarrow> prefix (tmpdir e) p \<Longrightarrow>
            fs (snd (main a e w)) p = None" for p
    unfolding m by (auto simp: fs_cleanup rmtree_def node_at_def remove_tree_def)
  show ?thesis using 1 3 4 by (simp add: m h)
qed

text \<open>
  The claim as stated fails: \<^verbatim>\<open>rmtree\<close> is called with \<^verbatim>\<open>ignore_errors=True\<close>, so when
  the removal fails the invocation ends normally and the workspace is still there.
\<close>

theorem workspace_left_behind:
  "validate demo_args (demo_env\<lparr>rmtree_fails := True\<rparr>) demo_world = (Inr (), demo_world) \<and>
   fs (snd (main demo_args (demo_env\<lparr>rmtree_fails := True\<rparr>) demo_world)) [''tmp'', ''myst-preview-0'']
     = Some Dir"
  by (simp add: demo acts ops upto_rec1)

theorem workspace_removal_witness:
  "validate demo_args demo_env demo_world = (Inr (), demo_world) \<and>
   fs (snd (main demo_args demo_env demo_world)) [''tmp'', ''myst-preview-0''] \<noteq> Some Dir"
proof -
  have v: "validate demo_args demo_env demo_world = (Inr (), demo_world)"
    by (simp add: demo validate_def ops name_def suffix_p_def suffix_of_def SUPPORTED_EXTENSIONS_def)
  from workspace_removal [OF v] show ?thesis
    using v by (simp add: demo_env_def)
qed

section \<open>Staging: the links\<close>

lemma walk_no_links:
  "(\<forall>r. prefix r rest \<and> r \<noteq> [] \<longrightarrow> \<not> is_symlink f (cur @ r)) \<Longrightarrow>
     walk k f cur rest = Some (cur @ rest)"
proof (induction rest arbitrary: cur)
  case Nil
  then show ?case by simp
next
  case (Cons c rest)
  have "\<not> is_symlink f (cur @ [c])" using Cons.prems by simp
  then have step: "walk k f cur (c # rest) = walk k f (cur @ [c]) rest"
    by (auto simp: is_symlink_def split: option.splits node.splits)
  have "\<forall>r. prefix r rest \<and> r \<noteq> [] \<longrightarrow> \<not> is_symlink f ((cur @ [c]) @ r)"
  proof (intro allI impI)
    fix r assume "prefix r rest \<and> r \<noteq> []"
    then have "prefix (c # r) (c # rest) \<and> c # r \<noteq> []" by simp
    with Cons.prems have "\<not> is_symlink f (cur @ (c # r))" by blast
    then show "\<not> is_symlink f ((cur @ [c]) @ r)" by simp
  qed
  from Cons.IH[OF this] show ?case using step by simp
qed

lemma realpath_child:
  assumes "real_dir f td" and "\<not> is_symlink f (td @ [n])"
  shows "realpath f (td @ [n]) = Some (td @ [n])"
proof -
  have "\<forall>r. prefix r (td @ [n]) \<and> r \<noteq> [] \<longrightarrow> \<not> is_symlink f ([] @ r)"
  proof (intro allI impI)
    fix r assume r: "prefix r (td @ [n]) \<and> r \<noteq> []"
    then have "prefix r td \<or> r = td @ [n]" by (auto simp: prefix_snoc)
    then show "\<not> is_symlink f ([] @ r)"
    proof
      assume "prefix r td"
      with r assms(1) have "f r = Some Dir" by (simp add: real_dir_def)
      then show ?thesis by (simp add: is_symlink_def)
    next
      assume "r = td @ [n]"
      with assms(2) show ?thesis by simp
    qed
  qed
  from walk_no_links[OF this] show ?thesis by (simp add: realpath_def)
qed

lemma real_dir_node: "real_dir f td \<Longrightarrow> node_at f td = Some Dir"
  by (simp add: real_dir_def node_at_def)

lemma real_dir_upd: "real_dir f td \<Longrightarrow> real_dir (f(td @ [n] := v)) td"
  by (auto simp: real_dir_def)

lemma os_symlink_result:
  "os_symlink f src dst = Inr f' \<Longrightarrow> dst \<noteq> [] \<Longrightarrow> f dst = None \<and> f' = f(dst \<mapsto> Symlink src)"
  by (auto simp: os_symlink_def node_at_def split: if_splits)

lemma stage_links_keeps:
  "stage_links sd td items f = (r, f') \<Longrightarrow> f p \<noteq> None \<Longrightarrow> f' p = f p"
proof (induction items arbitrary: f)
  case Nil
  then show ?case by simp
next
  case (Cons n ns)
  show ?case
  proof (cases "hidden n \<or> exists_p f (td @ [n])")
    case True
    with Cons.prems have "stage_links sd td ns f = (r, f')" by (auto split: if_splits)
    from Cons.IH[OF this Cons.prems(2)] show ?thesis .
  next
    case False
    show ?thesis
    proof (cases "os_symlink f (sd @ [n]) (td @ [n])")
      case (Inl x)
      with False Cons.prems show ?thesis by simp
    next
      case (Inr f1)
      from os_symlink_result[OF Inr] have h1: "f (td @ [n]) = None" "f1 = f(td @ [n] \<mapsto> Symlink (sd @ [n]))"
        by simp_all
      from Inr False Cons.prems have rec: "stage_links sd td ns f1 = (r, f')" by simp
      have "p \<noteq> td @ [n]" using h1(1) Cons.prems(2) by auto
      then have "f1 p = f p" by (simp add: h1(2))
      with Cons.IH[OF rec] Cons.prems(2) show ?thesis by simp
    qed
  qed
qed

lemma stage_links_changes:
  "stage_links sd td items f = (r, f') \<Longrightarrow> f' p \<noteq> f p \<Longrightarrow>
     \<exists>n\<in>set items. \<not> hidden n \<and> p = td @ [n] \<and> f' p = Some (Symlink (sd @ [n]))"
proof (induction items arbitrary: f)
  case Nil
  then show ?case by simp
next
  case (Cons n ns)
  show ?case
  proof (cases "hidden n \<or> exists_p f (td @ [n])")
    case True
    with Cons.prems have "stage_links sd td ns f = (r, f')" by (auto split: if_splits)
    from Cons.IH[OF this Cons.prems(2)] show ?thesis by auto
  next
    case False
    show ?thesis
    proof (cases "os_symlink f (sd @ [n]) (td @ [n])")
      case (Inl x)
      with False Cons.prems show ?thesis by simp
    next
      case (Inr f1)
      from os_symlink_result[OF Inr] have h1: "f (td @ [n]) = None" "f1 = f(td @ [n] \<mapsto> Symlink (sd @ [n]))"
        by simp_all
      from Inr False Cons.prems have rec: "stage_links sd td ns f1 = (r, f')" by simp
      show ?thesis
      proof (cases "f' p = f1 p")
        case True
        with Cons.prems(2) have "p = td @ [n]" by (auto simp: h1(2) split: if_splits)
        with True False show ?thesis by (simp add: h1(2))
      next
        case False
        from Cons.IH[OF rec False] show ?thesis by auto
      qed
    qed
  qed
qed

lemma stage_links_fresh:
  "real_dir f td \<Longrightarrow> \<forall>n\<in>set items. f (td @ [n]) = None \<Longrightarrow> distinct items \<Longrightarrow>
   stage_links sd td items f = (r, f') \<Longrightarrow>
     r = Inr () \<and> (\<forall>n\<in>set items. \<not> hidden n \<longrightarrow> f' (td @ [n]) = Some (Symlink (sd @ [n])))"
proof (induction items arbitrary: f)
  case Nil
  then show ?case by simp
next
  case (Cons n ns)
  show ?case
  proof (cases "hidden n")
    case True
    with Cons.prems have rec: "stage_links sd td ns f = (r, f')" by simp
    from Cons.IH[OF Cons.prems(1) _ _ rec] Cons.prems(2,3) True show ?thesis by simp
  next
    case False
    have none: "f (td @ [n]) = None" using Cons.prems(2) by simp
    then have "\<not> is_symlink f (td @ [n])" by (simp add: is_symlink_def)
    from realpath_child[OF Cons.prems(1) this] none
    have ne: "\<not> exists_p f (td @ [n])" by (simp add: exists_p_def node_at_def)
    have sl: "os_symlink f (sd @ [n]) (td @ [n]) = Inr (f(td @ [n] \<mapsto> Symlink (sd @ [n])))"
      using none real_dir_node[OF Cons.prems(1)] by (simp add: os_symlink_def node_at_def parent_def)
    let ?f1 = "f(td @ [n] \<mapsto> Symlink (sd @ [n]))"
    from False ne sl Cons.prems(4) have rec: "stage_links sd td ns ?f1 = (r, f')" by simp
    have rd: "real_dir ?f1 td" using Cons.prems(1) by (rule real_dir_upd)
    have fr: "\<forall>m\<in>set ns. ?f1 (td @ [m]) = None" using Cons.prems(2,3) by auto
    from Cons.IH[OF rd fr _ rec] Cons.prems(3)
    have ih: "r = Inr ()" "\<forall>m\<in>set ns. \<not> hidden m \<longrightarrow> f' (td @ [m]) = Some (Symlink (sd @ [m]))"
      by simp_all
    have "f' (td @ [n]) = ?f1 (td @ [n])" using stage_links_keeps[OF rec, of "td @ [n]"] by simp
    with ih show ?thesis by simp
  qed
qed

lemma demo_real_dir: "real_dir (fs (mkdtemp demo_env demo_world)) (tmpdir demo_env)"
  by (auto simp: real_dir_def mkdtemp_def demo_env_def demo_world_def demo_fs_def prefix_Cons
      split: list.splits)

lemma demo_fresh: "fs (mkdtemp demo_env demo_world) (tmpdir demo_env @ [n]) = None"
  by (simp add: mkdtemp_def demo_env_def demo_world_def demo_fs_def)

lemma demo_distinct: "distinct (listing demo_env)"
  by (simp add: demo_env_def)

text \<open>
  Claim C3.  The staging loop never replaces an entry that is already there; whatever
  it creates is a symbolic link in the workspace, named as a non-hidden entry of the
  source directory and pointing to that entry; an entry whose name starts with a dot is
  left as it was.  In the workspace that \<^verbatim>\<open>mkdtemp\<close> has just created (a real, empty
  directory), with the names that \<^verbatim>\<open>iterdir\<close> yields (each once), the loop raises
  nothing, every non-hidden entry has its link, and no other name is in the workspace.
\<close>

theorem staging_links:
  "stage_links sd td items f = (r, f') \<Longrightarrow>
     (\<forall>p. f p \<noteq> None \<longrightarrow> f' p = f p) \<and>
     (\<forall>p. f' p \<noteq> f p \<longrightarrow>
        (\<exists>n\<in>set items. \<not> hidden n \<and> p = td @ [n] \<and> f' p = Some (Symlink (sd @ [n])))) \<and>
     (\<forall>n. hidden n \<longrightarrow> f' (td @ [n]) = f (td @ [n])) \<and>
     (real_dir f td \<and> (\<forall>n. f (td @ [n]) = None) \<and> distinct items \<longrightarrow>
        r = Inr () \<and>
        (\<forall>n\<in>set items. \<not> hidden n \<longrightarrow> f' (td @ [n]) = Some (Symlink (sd @ [n]))) \<and>
        (\<forall>n. hidden n \<or> n \<notin> set items \<longrightarrow> f' (td @ [n]) = None))"
proof -
  assume st: "stage_links sd td items f = (r, f')"
  have 1: "\<forall>p. f p \<noteq> None \<longrightarrow> f' p = f p" using stage_links_keeps[OF st] by blast
  have 2: "\<forall>p. f' p \<noteq> f p \<longrightarrow>
        (\<exists>n\<in>set items. \<not> hidden n \<and> p = td @ [n] \<and> f' p = Some (Symlink (sd @ [n])))"
    using stage_links_changes[OF st] by blast
  have 3: "\<forall>n. hidden n \<or> n \<notin> set items \<longrightarrow> f' (td @ [n]) = f (td @ [n])"
    using 2 by fastforce
  have 4: "real_dir f td \<and> (\<forall>n. f (td @ [n]) = None) \<and> distinct items \<longrightarrow>
        r = Inr () \<and>
        (\<forall>n\<in>set items. \<not> hidden n \<longrightarrow> f' (td @ [n]) = Some (Symlink (sd @ [n])))"
    using stage_links_fresh[OF _ _ _ st] by blast
  show ?thesis using 1 2 3 4 by simp
qed


theorem staging_links_witness:
  "fst demo_staging = Inr () \<and>
   snd demo_staging [''tmp'', ''myst-preview-0'', ''img''] = Some (Symlink [''home'', ''u'', ''doc'', ''img'']) \<and>
   snd demo_staging [''tmp'', ''myst-preview-0'', ''notes.md''] =
     Some (Symlink [''home'', ''u'', ''doc'', ''notes.md'']) \<and>
   snd demo_staging [''tmp'', ''myst-preview-0'', ''.git''] = None"
proof -
  have st: "stage_links (parent (resolved demo_env)) (tmpdir demo_env) (listing demo_env)
       (fs (mkdtemp demo_env demo_world)) = (fst demo_staging, snd demo_staging)"
    by (simp add: demo_staging_def)
  from staging_links[OF st] demo_real_dir demo_fresh demo_distinct
  have "fst demo_staging = Inr () \<and>
        (\<forall>n\<in>set (listing demo_env). \<not> hidden n \<longrightarrow>
           snd demo_staging (tmpdir demo_env @ [n]) = Some (Symlink (parent (resolved demo_env) @ [n]))) \<and>
        (\<forall>n. hidden n \<or> n \<notin> set (listing demo_env) \<longrightarrow> snd demo_staging (tmpdir demo_env @ [n]) = None)"
    by blast
  then have a: "fst demo_staging = Inr ()"
    and b: "\<And>n. n \<in> set (listing demo_env) \<Longrightarrow> \<not> hidden n \<Longrightarrow>
           snd demo_staging (tmpdir demo_env @ [n]) = Some (Symlink (parent (resolved demo_env) @ [n]))"
    and c: "\<And>n. hidden n \<Longrightarrow> snd demo_staging (tmpdir demo_env @ [n]) = None"
    by blast+
  from a b[of "''img''"] b[of "''notes.md''"] c[of "''.git''"] show ?thesis
    by (simp add: demo_env_def hidden_def parent_def)
qed

section \<open>Staging: the descriptor\<close>

lemma format_template:
  "format MYST_YML_TEMPLATE [(''theme'', t), (''slug'', s)] =
     Inr (''version: 1'' @ nl @ ''site:'' @ nl @ ''  template: '' @ t @ nl @
          ''project:'' @ nl @ ''  toc:'' @ nl @ ''    - file: '' @ s @ nl)"
  by (simp add: format_def MYST_YML_TEMPLATE_def nl_def)


lemma write_descriptor_result:
  assumes rd: "real_dir f td" and nd: "f (td @ [''myst.yml'']) \<noteq> Some Dir"
  shows "write_descriptor td t s f =
     (Inr (), f(td @ [''myst.yml''] \<mapsto>
        File (''version: 1'' @ nl @ ''site:'' @ nl @ ''  template: '' @ t @ nl @
              ''project:'' @ nl @ ''  toc:'' @ nl @ ''    - file: '' @ s @ nl)))"
proof -
  let ?p = "td @ [''myst.yml'']"
  have wt: "real_dir g td \<Longrightarrow> \<not> is_symlink g ?p \<Longrightarrow> g ?p \<noteq> Some Dir \<Longrightarrow>
            write_text g ?p d = Inr (g(?p \<mapsto> File d))" for g d
    using realpath_child[of g td "''myst.yml''"] real_dir_node[of g td]
    by (simp add: write_text_def node_at_def parent_def)
  show ?thesis
  proof (cases "is_symlink f ?p")
    case True
    then have ul: "unlink f ?p = Inr (f(?p := None))"
      by (auto simp: unlink_def is_symlink_def node_at_def split: option.splits node.splits)
    have "write_text (f(?p := None)) ?p d = Inr ((f(?p := None))(?p \<mapsto> File d))" for d
      by (rule wt) (simp_all add: real_dir_upd[OF rd] is_symlink_def)
    then show ?thesis using True ul
      by (simp add: write_descriptor_def Let_def format_template)
  next
    case False
    from wt[OF rd False nd] show ?thesis using False
      by (simp add: write_descriptor_def Let_def format_template)
  qed
qed

lemma write_descriptor_frame:
  assumes rd: "real_dir f td" and wd: "write_descriptor td t s f = (r, f')"
    and p: "p \<noteq> td @ [''myst.yml'']"
  shows "f' p = f p"
proof (cases "f (td @ [''myst.yml'']) = Some Dir")
  case True
  then have ns: "\<not> is_symlink f (td @ [''myst.yml''])" by (simp add: is_symlink_def)
  from realpath_child[OF rd ns] True
  have "write_text f (td @ [''myst.yml'']) d =
      Inl (Error IsADirectoryError (''[Errno 21] Is a directory: '' @ quoted (td @ [''myst.yml''])))" for d
    by (simp add: write_text_def node_at_def)
  with ns wd have "f' = f" by (simp add: write_descriptor_def Let_def format_template)
  then show ?thesis by simp
next
  case False
  from write_descriptor_result[OF rd False, of t s] wd p show ?thesis by auto
qed

lemma real_dir_stage:
  "real_dir f td \<Longrightarrow> stage_links sd td items f = (r, f') \<Longrightarrow> real_dir f' td"
  using stage_links_keeps[of sd td items f r f'] by (auto simp: real_dir_def)



section \<open>Staging: what is written where\<close>

text \<open>
  Claim C9.  When the workspace is a real directory, the staging loop and the writing
  of the descriptor change nothing outside it, whether they succeed or raise: every
  path that is not strictly below the workspace holds what it held before.  In
  particular the entries of the source directory are untouched (the source directory
  does not lie inside the workspace), although \<open>write_text\<close> follows links.
\<close>

theorem staging_confined:
  "real_dir f td \<Longrightarrow> stage_links sd td items f = (r1, f1) \<Longrightarrow>
   write_descriptor td th slug f1 = (r2, f2) \<Longrightarrow>
     (\<forall>p. \<not> strict_prefix td p \<longrightarrow> f1 p = f p \<and> f2 p = f p) \<and>
     (\<not> prefix td sd \<longrightarrow> (\<forall>n. f1 (sd @ [n]) = f (sd @ [n]) \<and> f2 (sd @ [n]) = f (sd @ [n])))"
proof -
  assume rd: "real_dir f td" and st: "stage_links sd td items f = (r1, f1)"
    and wd: "write_descriptor td th slug f1 = (r2, f2)"
  have a: "f1 p = f p \<and> f2 p = f p" if "\<not> strict_prefix td p" for p
  proof -
    have 1: "f1 p = f p"
    proof (rule ccontr)
      assume "f1 p \<noteq> f p"
      from stage_links_changes[OF st this] obtain n where "p = td @ [n]" by blast
      with that show False by (simp add: strict_prefix_def)
    qed
    have "p \<noteq> td @ [''myst.yml'']" using that by (auto simp: strict_prefix_def)
    from write_descriptor_frame[OF real_dir_stage[OF rd st] wd this] 1 show ?thesis by simp
  qed
  have b: "\<not> strict_prefix td (sd @ [n])" if "\<not> prefix td sd" for n
    using that by (auto simp: strict_prefix_def prefix_snoc)
  show ?thesis using a b by blast
qed


theorem staging_confined_witness:
  "snd (write_descriptor (tmpdir demo_env) ''book-theme'' ''notes'' (snd demo_staging))
     [''home'', ''u'', ''doc'', ''myst.yml''] = Some (File ''custom'') \<and>
   snd demo_staging [''home'', ''u'', ''doc'', ''myst.yml''] = Some (File ''custom'')"
proof -
  have st: "stage_links (parent (resolved demo_env)) (tmpdir demo_env) (listing demo_env)
       (fs (mkdtemp demo_env demo_world)) = (fst demo_staging, snd demo_staging)"
    by (simp add: demo_staging_def)
  have wd: "write_descriptor (tmpdir demo_env) ''book-theme'' ''notes'' (snd demo_staging) =
     (fst (write_descriptor (tmpdir demo_env) ''book-theme'' ''notes'' (snd demo_staging)),
      snd (write_descriptor (tmpdir demo_env) ''book-theme'' ''notes'' (snd demo_staging)))"
    by simp
  have np: "\<not> prefix (tmpdir demo_env) (parent (resolved demo_env))"
    by (simp add: demo_env_def parent_def)
  from staging_confined[OF demo_real_dir st wd] np
  have "\<forall>n. snd demo_staging (parent (resolved demo_env) @ [n]) =
             fs (mkdtemp demo_env demo_world) (parent (resolved demo_env) @ [n]) \<and>
            snd (write_descriptor (tmpdir demo_env) ''book-theme'' ''notes'' (snd demo_staging))
              (parent (resolved demo_env) @ [n]) =
             fs (mkdtemp demo_env demo_world) (parent (resolved demo_env) @ [n])"
    by blast
  from this[rule_format, of "''myst.yml''"] show ?thesis
    by (simp add: demo_env_def parent_def mkdtemp_def demo_world_def demo_fs_def)
qed

section \<open>Build mode: a second run\<close>

text \<open>
  Claim C5 says that a successful build ends with the renderer's output copied to the
  output location, in place of what was there.  In the second run above the staging
  loop links \<^verbatim>\<open>_build\<close> of the source directory into the workspace, so the build
  directory \<^verbatim>\<open>tmpdir/_build/html\<close> and the default output location
  \<^verbatim>\<open>cwd/_build/html\<close> are one directory: \<^verbatim>\<open>rmtree(output_dir)\<close> removes the fresh build,
  \<^verbatim>\<open>copytree\<close> raises, \<^verbatim>\<open>main\<close> prints the error and ends with exit code 0, and the
  output location is gone.
\<close>

lemma rerun_eval:
  "\<exists>w. main rerun_args rerun_env rerun_world = (0, w) \<and>
     stdout w = [''Building notes.md to static HTML...''] \<and>
     stderr w = [''Error: [Errno 2] No such file or directory: '' @ quote @ ''/tmp/myst-preview-0/_build/html'' @ quote] \<and>
     fs w [''home'', ''u'', ''doc'', ''_build'', ''html''] = None \<and>
     fs w [''home'', ''u'', ''doc'', ''_build'', ''html'', ''index.html''] = None"
  by (simp add: rerun_args_def rerun_env_def rerun_world_def rerun_fs_def demo acts ops)

theorem build_rerun_loses_output:
  "fst (main rerun_args rerun_env rerun_world) = 0 \<and>
   stdout (snd (main rerun_args rerun_env rerun_world)) = [''Building notes.md to static HTML...''] \<and>
   stderr (snd (main rerun_args rerun_env rerun_world)) =
     [''Error: [Errno 2] No such file or directory: '' @ quote @ ''/tmp/myst-preview-0/_build/html'' @ quote] \<and>
   fs (snd (main rerun_args rerun_env rerun_world)) [''home'', ''u'', ''doc'', ''_build'', ''html''] = None \<and>
   fs (snd (main rerun_args rerun_env rerun_world))
     [''home'', ''u'', ''doc'', ''_build'', ''html'', ''index.html''] = None"
proof -
  from rerun_eval obtain w where "main rerun_args rerun_env rerun_world = (0, w)"
    and "stdout w = [''Building notes.md to static HTML...'']"
    and "stderr w = [''Error: [Errno 2] No such file or directory: '' @ quote @ ''/tmp/myst-preview-0/_build/html'' @ quote]"
    and "fs w [''home'', ''u'', ''doc'', ''_build'', ''html''] = None"
    and "fs w [''home'', ''u'', ''doc'', ''_build'', ''html'', ''index.html''] = None"
    by blast
  then show ?thesis by simp
qed

section \<open>Exit codes\<close>

text \<open>What each step of the \<^verbatim>\<open>try\<close> block can raise.\<close>

lemma then_doE:
  assumes "then_do m g w = (r, w')"
  obtains (raised) x where "m w = (Inl x, w')" and "r = Inl x"
        | (went_on) v w1 where "m w = (Inr v, w1)" and "g v w1 = (r, w')"
  using assms by (auto simp: then_do_def split: prod.splits sum.splits)

lemma deliver_raises: "deliver sp e w = (Inl x, w') \<Longrightarrow> x = SystemExit 0"
  by (auto simp: deliver_def cleanup_and_exit_def sys_exit_def split: if_splits)

lemma os_symlink_raises: "os_symlink f src dst = Inl x \<Longrightarrow> \<exists>k m. x = Error k m"
  by (auto simp: os_symlink_def split: if_splits)

lemma stage_links_raises:
  "stage_links sd td items f = (Inl x, f') \<Longrightarrow> \<exists>k m. x = Error k m"
proof (induction items arbitrary: f)
  case Nil
  then show ?case by simp
next
  case (Cons n ns)
  then show ?case
    by (auto split: if_splits sum.splits dest: os_symlink_raises)
qed

lemma write_descriptor_raises:
  "write_descriptor td t s f = (Inl x, f') \<Longrightarrow> \<exists>k m. x = Error k m"
  by (auto simp: write_descriptor_def Let_def format_template unlink_def write_text_def
      split: if_splits sum.splits option.splits node.splits)

lemma on_fs_raises:
  "on_fs h w = (Inl x, w') \<Longrightarrow> \<exists>f'. h (fs w) = (Inl x, f')"
  by (auto simp: on_fs_def split: prod.splits)

lemma find_myst_raises:
  "find_myst e w = (Inl x, w') \<Longrightarrow>
     x = SystemExit 1 \<and> \<not> found (which e ''myst'') \<and> \<not> found (which e ''npx'')"
  by (auto simp: find_myst_def Let_def sys_exit_def split: if_splits)

lemma bind_raises: "bind e p = Inl x \<Longrightarrow> \<exists>k m. x = Error k m"
  by (auto simp: bind_def split: if_splits)

lemma try_ports_raises: "try_ports e ps w = (Inl x, w') \<Longrightarrow> \<exists>k m. x = Error k m"
proof (induction ps arbitrary: w)
  case Nil
  then show ?case by simp
next
  case (Cons p ps)
  then show ?case
    by (auto simp: Let_def split: sum.splits if_splits dest: bind_raises)
qed

lemma try_ports_used_up:
  "try_ports e ps w = (Inr None, w') \<Longrightarrow> \<forall>q\<in>set ps. \<exists>x. bind e q = Inl x \<and> is_OSError x"
proof (induction ps arbitrary: w)
  case Nil
  then show ?case by simp
next
  case (Cons p ps)
  then show ?case
    by (auto simp: Let_def split: sum.splits if_splits)
qed

lemma find_free_port_raises:
  assumes "find_free_port e start 0 w = (Inl x, w')"
  shows "(\<exists>k m. x = Error k m) \<or>
         x = SystemExit 1 \<and>
         (\<forall>q. start \<le> q \<and> q \<le> start + 50 \<longrightarrow> (\<exists>x. bind e q = Inl x \<and> is_OSError x))"
proof (cases "try_ports e [start..start + 50] w")
  case (Pair r w1)
  show ?thesis
  proof (cases r)
    case (Inl y)
    with Pair assms have "x = y" by (simp add: find_free_port_def)
    with try_ports_raises Pair Inl show ?thesis by blast
  next
    case (Inr v)
    show ?thesis
    proof (cases v)
      case None
      with Pair Inr assms have "x = SystemExit 1" by (simp add: find_free_port_def sys_exit_def)
      moreover from try_ports_used_up Pair Inr None
      have "\<forall>q\<in>set [start..start + 50]. \<exists>x. bind e q = Inl x \<and> is_OSError x" by blast
      ultimately show ?thesis by simp
    next
      case (Some p)
      with Pair Inr assms show ?thesis by (simp add: find_free_port_def)
    qed
  qed
qed

lemma popen_raises: "popen e cmd w = (Inl x, w') \<Longrightarrow> \<exists>k m. x = Error k m"
  by (auto simp: popen_def split: option.splits)

lemma proc_wait_raises: "proc_wait e w = (Inl x, w') \<Longrightarrow> x = SystemExit 0"
  by (auto simp: proc_wait_def cleanup_and_exit_def sys_exit_def split: if_splits)

lemma proc_wait_returns: "proc_wait e w = (Inr u, w') \<Longrightarrow> proc w' = Some (Exited (child_exit e))"
  by (auto simp: proc_wait_def cleanup_and_exit_def sys_exit_def split: if_splits)

lemma open_browser_returns: "open_browser a e p w = (r, w') \<Longrightarrow> r = Inr ()"
  by (auto simp: open_browser_def split: if_splits)

lemma serve_mode_raises:
  assumes "serve_mode a e cmd w = (Inl x, w')"
  shows "(\<exists>k m. x = Error k m) \<or> x = SystemExit 0 \<or>
         x = SystemExit 1 \<and>
         (\<forall>q. port a \<le> q \<and> q \<le> port a + 50 \<longrightarrow> (\<exists>x. bind e q = Inl x \<and> is_OSError x))"
  using assms unfolding serve_mode_def Let_def
proof (cases rule: then_doE)
  case (raised y)
  with find_free_port_raises[of e "port a" w y w'] show ?thesis by auto
next
  case (went_on p w1)
  from went_on(2) show ?thesis
  proof (cases rule: then_doE)
    case (raised y)
    with popen_raises show ?thesis by blast
  next
    case (went_on u w2)
    from went_on(2) show ?thesis
    proof (cases rule: then_doE)
      case (raised y)
      with open_browser_returns show ?thesis by blast
    next
      case (went_on u' w3)
      with proc_wait_raises show ?thesis by blast
    qed
  qed
qed

lemma serve_mode_returns:
  assumes "serve_mode a e cmd w = (Inr u, w')"
  shows "proc w' = Some (Exited (child_exit e))"
  using assms unfolding serve_mode_def Let_def
proof (cases rule: then_doE)
  case (raised y)
  then show ?thesis by simp
next
  case (went_on p w1)
  from went_on(2) show ?thesis
  proof (cases rule: then_doE)
    case (raised y)
    then show ?thesis by simp
  next
    case (went_on u w2)
    from went_on(2) show ?thesis
    proof (cases rule: then_doE)
      case (raised y)
      then show ?thesis by simp
    next
      case (went_on u' w3)
      with proc_wait_returns show ?thesis by blast
    qed
  qed
qed

lemma rmtree_raises: "rmtree f p = Inl x \<Longrightarrow> \<exists>k m. x = Error k m"
  by (auto simp: rmtree_def split: option.splits node.splits)

lemma copytree_raises: "copytree f src dst = Inl x \<Longrightarrow> \<exists>k m. x = Error k m"
  by (auto simp: copytree_def split: option.splits node.splits if_splits)

lemma try_fs_raises: "try_fs h w = (Inl x, w') \<Longrightarrow> h (fs w) = Inl x"
  by (auto simp: try_fs_def split: sum.splits)

lemma subprocess_run_cases:
  assumes "subprocess_run e cmd w = (r, w')"
  shows "(\<exists>k m. r = Inl (Error k m)) \<or> r = Inl (SystemExit 0) \<or> r = Inr (projr r) \<and> run_result e = Inr (projr r)"
  using assms
  by (auto simp: subprocess_run_def Let_def cleanup_and_exit_def sys_exit_def
      split: sum.splits prod.splits if_splits)

lemma build_mode_raises:
  assumes "build_mode a e cmd w = (Inl x, w')"
  shows "(\<exists>k m. x = Error k m) \<or> (\<exists>n. x = SystemExit n \<and> (n = 0 \<or> run_result e = Inr n))"
  using assms unfolding build_mode_def Let_def
proof (cases rule: then_doE)
  case (raised y)
  with subprocess_run_cases[OF raised(1)] show ?thesis by auto
next
  case (went_on rc w1)
  from subprocess_run_cases[OF went_on(1)] have rr: "run_result e = Inr rc" by auto
  show ?thesis
  proof (cases "rc = 0")
    case False
    with went_on(2) rr show ?thesis by (auto simp: sys_exit_def)
  next
    case True
    define od where "od = (case output a of None \<Rightarrow> cwd e @ [''_build'', ''html''] | Some p \<Rightarrow> p)"
    have
      "then_do (\<lambda>w. if exists_p (fs w) od then try_fs (\<lambda>f. rmtree f od) w else (Inr (), w))
         (\<lambda>u. then_do (try_fs (\<lambda>f. copytree f (tmpdir e @ [''_build'', ''html'']) od))
               (\<lambda>u w. sys_exit rc (print (''Output written to '' @ show_path od) w))) w1
         = (Inl x :: exc + unit, w')"
      using went_on(2) True unfolding od_def by simp
    then show ?thesis
    proof (cases rule: then_doE)
      case (raised y)
      then show ?thesis by (auto split: if_splits dest!: try_fs_raises rmtree_raises)
    next
      case (went_on u w2)
      from went_on(2) show ?thesis
      proof (cases rule: then_doE)
        case (raised y)
        then show ?thesis by (auto dest!: try_fs_raises copytree_raises)
      next
        case (went_on u' w3)
        with True show ?thesis by (auto simp: sys_exit_def)
      qed
    qed
  qed
qed

text \<open>
  In build mode the exit code is the renderer's return code whenever the renderer has
  run to its end, also when the copy of its output fails (the code is then 0 on both
  sides).
\<close>

lemma build_exit_code:
  assumes "signal e \<noteq> Some SigBuild" and "run_result e = Inr rc"
  shows "exit_code (fst (handle_exception (build_mode a e cmd w))) = rc"
proof (cases "build_mode a e cmd w")
  case (Pair r w')
  have run: "subprocess_run e c v = (Inr rc, (log [Spawn c (tmpdir e) False] v)\<lparr>fs := run_effect e (fs v)\<rparr>)" for c v
    using assms by (simp add: subprocess_run_def Let_def)
  show ?thesis
  proof (cases "rc = 0")
    case False
    then show ?thesis
      by (simp add: build_mode_def Let_def then_do_def run sys_exit_def handle_exception_def exit_code_def)
  next
    case True
    show ?thesis
    proof (cases r)
      case (Inr u)
      with Pair True show ?thesis by (simp add: handle_exception_def exit_code_def)
    next
      case (Inl x)
      from build_mode_raises[of a e cmd w x w'] Pair Inl assms(2) True
      have "(\<exists>k m. x = Error k m) \<or> x = SystemExit 0" by auto
      with Pair Inl True show ?thesis by (auto simp: handle_exception_def exit_code_def)
    qed
  qed
qed

lemma try_body_raises:
  assumes "try_body a e w = (Inl x, w')"
  shows "(\<exists>k m. x = Error k m) \<or> x = SystemExit 0 \<or>
         x = SystemExit 1 \<and> \<not> found (which e ''myst'') \<and> \<not> found (which e ''npx'') \<or>
         x = SystemExit 1 \<and> \<not> build a \<and>
           (\<forall>q. port a \<le> q \<and> q \<le> port a + 50 \<longrightarrow> (\<exists>x. bind e q = Inl x \<and> is_OSError x)) \<or>
         (\<exists>n. x = SystemExit n \<and> build a \<and> run_result e = Inr n)"
  using assms unfolding try_body_def Let_def
proof (cases rule: then_doE)
  case (raised y)
  with deliver_raises show ?thesis by blast
next
  case (went_on u1 w1)
  from went_on(2) show ?thesis
  proof (cases rule: then_doE)
    case (raised y)
    from on_fs_raises[OF raised(1)] stage_links_raises raised(2) show ?thesis by blast
  next
    case (went_on u2 w2)
    from went_on(2) show ?thesis
    proof (cases rule: then_doE)
      case (raised y)
      from on_fs_raises[OF raised(1)] write_descriptor_raises raised(2) show ?thesis by blast
    next
      case (went_on u3 w3)
      from went_on(2) show ?thesis
      proof (cases rule: then_doE)
        case (raised y)
        with deliver_raises show ?thesis by blast
      next
        case (went_on u4 w4)
        from went_on(2) show ?thesis
        proof (cases rule: then_doE)
          case (raised y)
          with find_myst_raises show ?thesis by blast
        next
          case (went_on cmd w5)
          show ?thesis
          proof (cases "build a")
            case True
            with went_on(2) have "build_mode a e cmd w5 = (Inl x, w')" by simp
            from build_mode_raises[OF this] True show ?thesis by auto
          next
            case False
            with went_on(2) have "serve_mode a e cmd w5 = (Inl x, w')" by simp
            from serve_mode_raises[OF this] False show ?thesis by auto
          qed
        qed
      qed
    qed
  qed
qed

lemma try_body_returns:
  assumes "try_body a e w = (Inr u, w')" and "\<not> build a"
  shows "proc w' = Some (Exited (child_exit e))"
  using assms(1) unfolding try_body_def Let_def
proof (cases rule: then_doE)
  case (raised y)
  then show ?thesis by simp
next
  case (went_on u1 w1)
  from went_on(2) show ?thesis
  proof (cases rule: then_doE)
    case (raised y)
    then show ?thesis by simp
  next
    case (went_on u2 w2)
    from went_on(2) show ?thesis
    proof (cases rule: then_doE)
      case (raised y)
      then show ?thesis by simp
    next
      case (went_on u3 w3)
      from went_on(2) show ?thesis
      proof (cases rule: then_doE)
        case (raised y)
        then show ?thesis by simp
      next
        case (went_on u4 w4)
        from went_on(2) show ?thesis
        proof (cases rule: then_doE)
          case (raised y)
          then show ?thesis by simp
        next
          case (went_on cmd w5)
          with assms(2) have "serve_mode a e cmd w5 = (Inr u, w')" by simp
          then show ?thesis by (rule serve_mode_returns)
        qed
      qed
    qed
  qed
qed

text \<open>
  Claim C10.  In serve mode, when the \<^verbatim>\<open>try\<close> block returns, the child has ended by
  itself, with whatever status, and the exit code is 0.  An exception raised in the
  \<^verbatim>\<open>try\<close> block is printed to standard error and the exit code is 0.  A nonzero exit
  code comes only from a failed validation, a missing renderer, a port range in which
  every bind failed (each with exit code 1), or build mode, where it is the renderer's
  return code.
\<close>

theorem exit_codes:
  "(validate a e w = (Inr (), w) \<and> \<not> build a \<and> try_body a e (mkdtemp e w) = (Inr (), w2) \<longrightarrow>
      main a e w = (0, cleanup e w2) \<and> proc w2 = Some (Exited (child_exit e))) \<and>
   (validate a e w = (Inr (), w) \<and> try_body a e (mkdtemp e w) = (Inl (Error k m), w2) \<longrightarrow>
      main a e w = (0, cleanup e (eprint (''Error: '' @ m) w2))) \<and>
   (fst (main a e w) \<noteq> 0 \<longrightarrow>
      (\<not> exists_p (fs w) (resolved e) \<or> suffix_p (resolved e) \<notin> set SUPPORTED_EXTENSIONS) \<and>
        fst (main a e w) = 1 \<or>
      \<not> found (which e ''myst'') \<and> \<not> found (which e ''npx'') \<and> fst (main a e w) = 1 \<or>
      \<not> build a \<and> fst (main a e w) = 1 \<and>
        (\<forall>q. port a \<le> q \<and> q \<le> port a + 50 \<longrightarrow> (\<exists>x. bind e q = Inl x \<and> is_OSError x)) \<or>
      build a \<and> run_result e = Inr (fst (main a e w)))"
proof (intro conjI impI)
  assume h: "validate a e w = (Inr (), w) \<and> \<not> build a \<and> try_body a e (mkdtemp e w) = (Inr (), w2)"
  then show "main a e w = (0, cleanup e w2)"
    by (simp add: main_def handle_exception_def exit_code_def)
  from h try_body_returns show "proc w2 = Some (Exited (child_exit e))" by blast
next
  assume "validate a e w = (Inr (), w) \<and> try_body a e (mkdtemp e w) = (Inl (Error k m), w2)"
  then show "main a e w = (0, cleanup e (eprint (''Error: '' @ m) w2))"
    by (simp add: main_def handle_exception_def exit_code_def)
next
  assume nz: "fst (main a e w) \<noteq> 0"
  show "(\<not> exists_p (fs w) (resolved e) \<or> suffix_p (resolved e) \<notin> set SUPPORTED_EXTENSIONS) \<and>
        fst (main a e w) = 1 \<or>
      \<not> found (which e ''myst'') \<and> \<not> found (which e ''npx'') \<and> fst (main a e w) = 1 \<or>
      \<not> build a \<and> fst (main a e w) = 1 \<and>
        (\<forall>q. port a \<le> q \<and> q \<le> port a + 50 \<longrightarrow> (\<exists>x. bind e q = Inl x \<and> is_OSError x)) \<or>
      build a \<and> run_result e = Inr (fst (main a e w))"
  proof (cases "\<not> exists_p (fs w) (resolved e) \<or> suffix_p (resolved e) \<notin> set SUPPORTED_EXTENSIONS")
    case True
    then have "fst (main a e w) = 1"
      by (auto simp: main_def validate_def Let_def sys_exit_def exit_code_def)
    with True show ?thesis by blast
  next
    case False
    then have v: "validate a e w = (Inr (), w)" by (simp add: validate_def Let_def)
    obtain r w2 where tb: "try_body a e (mkdtemp e w) = (r, w2)"
      by (cases "try_body a e (mkdtemp e w)")
    show ?thesis
    proof (cases r)
      case (Inr u)
      with v tb nz show ?thesis by (simp add: main_def handle_exception_def exit_code_def)
    next
      case (Inl x)
      show ?thesis
      proof (cases x)
        case (Error k m)
        with Inl v tb nz show ?thesis by (simp add: main_def handle_exception_def exit_code_def)
      next
        case (SystemExit n)
        with Inl v tb have m: "fst (main a e w) = n"
          by (simp add: main_def handle_exception_def exit_code_def)
        from try_body_raises[of a e "mkdtemp e w" x w2] tb Inl SystemExit m nz
        show ?thesis by auto
      qed
    qed
  qed
qed

theorem exit_codes_witness:
  "fst (main demo_args demo_env demo_world) = 0 \<and>
   proc (snd (try_body demo_args demo_env (mkdtemp demo_env demo_world))) = Some (Exited 3) \<and>
   fst (main (demo_args\<lparr>build := True\<rparr>) (demo_env\<lparr>run_result := Inr 2\<rparr>) demo_world) = 2"
proof -
  have v: "validate demo_args demo_env demo_world = (Inr (), demo_world)"
    by (simp add: demo validate_def ops name_def suffix_p_def suffix_of_def SUPPORTED_EXTENSIONS_def)
  have "fst (try_body demo_args demo_env (mkdtemp demo_env demo_world)) = Inr ()"
    by (simp add: demo acts ops upto_rec1)
  then have tb: "try_body demo_args demo_env (mkdtemp demo_env demo_world) =
      (Inr (), snd (try_body demo_args demo_env (mkdtemp demo_env demo_world)))"
    by (metis prod.collapse)
  have nb: "\<not> build demo_args" by (simp add: demo_args_def)
  have b: "fst (main (demo_args\<lparr>build := True\<rparr>) (demo_env\<lparr>run_result := Inr 2\<rparr>) demo_world) = 2"
    by (simp add: demo acts ops)
  from exit_codes[of demo_args demo_env demo_world
      "snd (try_body demo_args demo_env (mkdtemp demo_env demo_world))"] v tb nb
  have "main demo_args demo_env demo_world =
          (0, cleanup demo_env (snd (try_body demo_args demo_env (mkdtemp demo_env demo_world)))) \<and>
        proc (snd (try_body demo_args demo_env (mkdtemp demo_env demo_world))) =
          Some (Exited (child_exit demo_env))"
    by blast
  then show ?thesis using b by (simp add: demo_env_def)
qed

end
